theory Spec2Isabelle
  imports Complex_Main
begin

section \<open>Attention overrides and block selectors of \<open>core/unet.py\<close>\<close>

text \<open>
  The module has three parts: the identity override \<open>pag_perturbed_attention\<close>, the
  blurring wrappers \<open>seg_attention_wrapper\<close> and \<open>seg_attention_wrapper_old\<close>, and the
  selector parser \<open>parse_unet_blocks\<close>. Python exceptions are values of \<open>error\<close>; a
  function that can raise returns \<open>error + 'a\<close> with \<open>Inl\<close> for the exception.
  Python integers are \<open>int\<close>, sizes and counts are \<open>nat\<close>. The floating-point
  operations of the wrapper are parameters of its model. Only the kernel-size formulas
  are written over a real \<open>blur_sigma\<close>: every integer is the ceiling of some real, so
  what is proved of them holds for whatever integer \<open>math.ceil\<close> returns.
  \<open>Unmodelled\<close> is no Python exception: the primitives of the examples return it
  outside the inputs they are defined for.
\<close>

datatype error =
    IndexError
  | ValueError
  | KeyError
  | ZeroDivisionError
  | UnboundLocalError
  | AssertionError
  | RuntimeError
  | OverflowError
  | Unmodelled

subsection \<open>The identity override\<close>

text \<open>
  \<^verbatim>\<open>def pag_perturbed_attention(q, k, v, extra_options, mask=None): return v\<close>
  The arguments are of arbitrary types: the function never inspects them.
\<close>

definition pag_perturbed_attention :: "'q \<Rightarrow> 'k \<Rightarrow> 'v \<Rightarrow> 'o \<Rightarrow> 'm option \<Rightarrow> 'v" where
  "pag_perturbed_attention q k v extra_options mask_arg = v"

subsection \<open>Kernel sizes\<close>

text \<open>
  Lines 48 to 50 of \<open>seg_attention_wrapper\<close>:
  \<^verbatim>\<open>kernel_size = math.ceil(6 * blur_sigma)
  if kernel_size % 2 == 0: kernel_size += 1\<close>
  \<open>math.ceil\<close> returns a Python integer, and \<open>%\<close> with a positive modulus is the
  floor remainder, as \<open>mod\<close> on \<open>int\<close> is.
\<close>

definition odd_kernel_size :: "real \<Rightarrow> int" where
  "odd_kernel_size blur_sigma =
     (let kernel_size = \<lceil>6 * blur_sigma\<rceil>
      in if kernel_size mod 2 = 0 then kernel_size + 1 else kernel_size)"

text \<open>
  Lines 55 and 56: \<^verbatim>\<open>max_k = 2 * min(q.shape[-2], q.shape[-1]) - 1\<close> and
  \<^verbatim>\<open>kernel_size = min(kernel_size, max_k)\<close>. The two shape entries are the
  height and the width of the spatial tensor.
\<close>

definition capped_kernel_size :: "real \<Rightarrow> nat \<Rightarrow> nat \<Rightarrow> int" where
  "capped_kernel_size blur_sigma height width =
     (let kernel_size = odd_kernel_size blur_sigma;
          max_k = 2 * min (int height) (int width) - 1
      in min kernel_size max_k)"

text \<open>
  Line 107 of \<open>seg_attention_wrapper_old\<close>:
  \<^verbatim>\<open>kernel_size = math.ceil(6 * blur_sigma) + 1 - math.ceil(6 * blur_sigma) % 2\<close>
\<close>

definition old_kernel_size :: "real \<Rightarrow> int" where
  "old_kernel_size blur_sigma = \<lceil>6 * blur_sigma\<rceil> + 1 - \<lceil>6 * blur_sigma\<rceil> mod 2"

subsection \<open>Tensors\<close>

text \<open>
  A tensor is its shape and its elements in row-major order. Only the operations the
  wrapper calls are modelled, with the behaviour of the tensor library:
  \<^item> \<open>t.permute(0, 2, 1)\<close> on a tensor of shape \<open>[b, m, n]\<close> has shape \<open>[b, n, m]\<close>
    and at position \<open>(i, j, k)\<close> the element of \<open>t\<close> at \<open>(i, k, j)\<close>;
    \<open>source_index m n p\<close> is the flat index in \<open>t\<close> of the element at flat index \<open>p\<close>
    of the result;
  \<^item> \<open>t.reshape(..., -1, ...)\<close> keeps the elements in order and infers the dimension
    written \<open>-1\<close>; it raises when the product of the given dimensions is zero or does
    not divide the number of elements.
\<close>

record 'a tensor =
  shape :: "nat list"
  elems :: "'a list"

definition wf_tensor :: "'a tensor \<Rightarrow> bool" where
  "wf_tensor t \<longleftrightarrow> length (elems t) = prod_list (shape t)"

definition elem3 :: "'a tensor \<Rightarrow> nat \<Rightarrow> nat \<Rightarrow> nat \<Rightarrow> 'a" where
  "elem3 t i j k = elems t ! (i * (shape t ! 1 * shape t ! 2) + j * shape t ! 2 + k)"

definition source_index :: "nat \<Rightarrow> nat \<Rightarrow> nat \<Rightarrow> nat" where
  "source_index m n p = (p div (n * m)) * (m * n) + (p mod m) * n + (p div m) mod n"

definition permute_021 :: "'a tensor \<Rightarrow> error + 'a tensor" where
  "permute_021 t =
     (case shape t of
        [b, m, n] \<Rightarrow>
          Inr \<lparr>shape = [b, n, m],
               elems = map (\<lambda>p. elems t ! source_index m n p) [0..<b * n * m]\<rparr>
      | _ \<Rightarrow> Inl RuntimeError)"

definition reshape_infer :: "nat list \<Rightarrow> nat list \<Rightarrow> 'a tensor \<Rightarrow> error + 'a tensor" where
  "reshape_infer before after t =
     (let newsize = prod_list before * prod_list after;
          numel = prod_list (shape t)
      in if 0 < newsize \<and> numel mod newsize = 0
         then Inr \<lparr>shape = before @ [numel div newsize] @ after, elems = elems t\<rparr>
         else Inl RuntimeError)"

subsection \<open>The blurring wrapper\<close>

text \<open>
  The wrapper computes with binary floating-point numbers: the aspect ratio and the
  rounded root that gives the height or the width, the ceiling of \<open>6 * blur_sigma\<close>,
  the comparisons \<open>aspect_ratio >= 1.0\<close> and \<open>blur_sigma >= 0\<close>, and the mean of a
  plane. These operations are parameters of the model, over a type
  \<open>'f\<close> of floats and a type \<open>'a\<close> of tensor elements, so that what is proved holds
  for the results the interpreter and the tensor library really give:
  \<^item> \<open>true_div w h\<close> is \<^verbatim>\<open>width_orig / height_orig\<close> for \<open>h \<noteq> 0\<close>;
  \<^item> \<open>ge_one x\<close> is \<^verbatim>\<open>aspect_ratio >= 1.0\<close>;
  \<^item> \<open>round_root_div area x\<close> is \<^verbatim>\<open>round((area / aspect_ratio) ** 0.5)\<close>;
  \<^item> \<open>round_root_mul area x\<close> is \<^verbatim>\<open>round((area * aspect_ratio) ** 0.5)\<close>;
  \<^item> \<open>ge_zero s\<close> is \<^verbatim>\<open>blur_sigma >= 0\<close>;
  \<^item> \<open>ceil_six s\<close> is \<^verbatim>\<open>math.ceil(6 * blur_sigma)\<close>, which raises
    \<open>OverflowError\<close> on an infinite product;
  \<^item> \<open>plane_mean xs\<close> is the mean the tensor library computes for one plane, given
    in row-major order.
\<close>

record ('f, 'a) float_prims =
  true_div :: "nat \<Rightarrow> nat \<Rightarrow> error + 'f"
  ge_one :: "'f \<Rightarrow> bool"
  round_root_div :: "nat \<Rightarrow> 'f \<Rightarrow> error + int"
  round_root_mul :: "nat \<Rightarrow> 'f \<Rightarrow> error + int"
  ge_zero :: "'f \<Rightarrow> bool"
  ceil_six :: "'f \<Rightarrow> error + int"
  plane_mean :: "'a list \<Rightarrow> error + 'a"

text \<open>
  Lines 39 to 44, with \<open>bs, area, inner_dim = q.shape\<close>:
  \<^verbatim>\<open>if aspect_ratio >= 1.0:
      height = round((area / aspect_ratio) ** 0.5)
      q = q.permute(0, 2, 1).reshape(bs, inner_dim, height, -1)
  else:
      width = round((area * aspect_ratio) ** 0.5)
      q = q.permute(0, 2, 1).reshape(bs, inner_dim, -1, width)\<close>
  A rounded root is never negative; the reshape refuses a zero as it would a negative
  dimension.
\<close>

definition permute_reshape :: "nat list \<Rightarrow> nat list \<Rightarrow> 'a tensor \<Rightarrow> error + 'a tensor" where
  "permute_reshape before after q =
     (case permute_021 q of
        Inl e \<Rightarrow> Inl e
      | Inr qp \<Rightarrow> reshape_infer before after qp)"

definition to_spatial :: "('f, 'a) float_prims \<Rightarrow> 'f \<Rightarrow> 'a tensor \<Rightarrow> error + 'a tensor" where
  "to_spatial prims aspect_ratio q =
     (case shape q of
        [bs, area, inner_dim] \<Rightarrow>
          if ge_one prims aspect_ratio then
            (case round_root_div prims area aspect_ratio of
               Inl e \<Rightarrow> Inl e
             | Inr height \<Rightarrow> permute_reshape [bs, inner_dim, nat height] [] q)
          else
            (case round_root_mul prims area aspect_ratio of
               Inl e \<Rightarrow> Inl e
             | Inr width \<Rightarrow> permute_reshape [bs, inner_dim] [nat width] q)
      | _ \<Rightarrow> Inl ValueError)"

text \<open>
  Lines 49 to 56 on the integer \<open>c\<close> that \<open>math.ceil\<close> returned:
  \<^verbatim>\<open>if kernel_size % 2 == 0: kernel_size += 1
  max_k = 2 * min(q.shape[-2], q.shape[-1]) - 1
  kernel_size = min(kernel_size, max_k)\<close>
\<close>

definition kernel_size_of :: "int \<Rightarrow> nat \<Rightarrow> nat \<Rightarrow> int" where
  "kernel_size_of c height width =
     (let kernel_size = (if c mod 2 = 0 then c + 1 else c);
          max_k = 2 * min (int height) (int width) - 1
      in min kernel_size max_k)"

text \<open>
  Line 71, \<^verbatim>\<open>q[:] = q.mean(dim=(-2, -1), keepdim=True)\<close>: every plane of
  \<open>h * w\<close> elements, one for each batch index and channel, is overwritten with its
  mean. The assignment writes into the storage of the caller's \<open>q\<close> when the reshaped
  tensor is a view of it; the model gives the value of the local \<open>q\<close> only, which is
  what the wrapper passes on.
\<close>

fun collect :: "(error + 'a) list \<Rightarrow> error + 'a list" where
  "collect [] = Inr []"
| "collect (r # rs) =
     (case r of
        Inl e \<Rightarrow> Inl e
      | Inr x \<Rightarrow> (case collect rs of Inl e \<Rightarrow> Inl e | Inr xs \<Rightarrow> Inr (x # xs)))"

definition mean_collapse :: "('f, 'a) float_prims \<Rightarrow> 'a tensor \<Rightarrow> error + 'a tensor" where
  "mean_collapse prims q =
     (case shape q of
        [b, c, h, w] \<Rightarrow>
          (case collect (map (\<lambda>p. plane_mean prims (take (h * w) (drop (p * (h * w)) (elems q))))
                             [0..<b * c]) of
             Inl e \<Rightarrow> Inl e
           | Inr means \<Rightarrow> Inr (q\<lparr>elems := concat (map (replicate (h * w)) means)\<rparr>))
      | _ \<Rightarrow> Inl RuntimeError)"

text \<open>
  Lines 46 to 71. The Gaussian blur of the image library is a parameter as well: it is
  given the kernel size, the sigma and the border mode, and it may raise.
\<close>

type_synonym ('f, 'a) blur = "int \<Rightarrow> 'f \<Rightarrow> string \<Rightarrow> 'a tensor \<Rightarrow> error + 'a tensor"

definition perturb ::
  "('f, 'a) float_prims \<Rightarrow> ('f, 'a) blur \<Rightarrow> 'f \<Rightarrow> string \<Rightarrow> 'a tensor \<Rightarrow> error + 'a tensor" where
  "perturb prims blur blur_sigma border_mode q =
     (if ge_zero prims blur_sigma then
        (case ceil_six prims blur_sigma of
           Inl e \<Rightarrow> Inl e
         | Inr c \<Rightarrow>
             (case rev (shape q) of
                w # h # _ \<Rightarrow>
                  (let kernel_size = kernel_size_of c h w
                   in if 3 \<le> kernel_size then blur kernel_size blur_sigma border_mode q
                      else Inr q)
              | _ \<Rightarrow> Inl IndexError))
      else mean_collapse prims q)"

text \<open>Line 74, \<^verbatim>\<open>q = q.reshape(bs, inner_dim, -1).permute(0, 2, 1)\<close>.\<close>

definition from_spatial :: "nat \<Rightarrow> nat \<Rightarrow> 'a tensor \<Rightarrow> error + 'a tensor" where
  "from_spatial bs inner_dim q =
     (case reshape_infer [bs, inner_dim] [] q of
        Inl e \<Rightarrow> Inl e
      | Inr q3 \<Rightarrow> permute_021 q3)"

text \<open>
  \<open>extra_options\<close> is a dictionary; a missing key raises \<open>KeyError\<close>.
  \<open>extra_options["original_shape"][2:4]\<close> is unpacked into two names, which raises
  \<open>ValueError\<close> unless the slice has two entries, and the division of the two sizes
  raises \<open>ZeroDivisionError\<close> when the height is zero.
\<close>

record extra_options =
  n_heads :: "int option"
  original_shape :: "nat list option"

text \<open>
  The body of \<open>seg_perturbed_attention\<close> up to the call of the wrapped function: the
  tensor that is passed on as \<open>q\<close>, and \<open>heads\<close>.
\<close>

definition seg_perturbed_q ::
  "('f, 'a) float_prims \<Rightarrow> 'f \<Rightarrow> string \<Rightarrow> ('f, 'a) blur \<Rightarrow> 'a tensor \<Rightarrow> extra_options
     \<Rightarrow> error + ('a tensor \<times> int)" where
  "seg_perturbed_q prims blur_sigma border_mode blur q extra_options =
     (case n_heads extra_options of
        None \<Rightarrow> Inl KeyError
      | Some heads \<Rightarrow>
          (case shape q of
             [bs, area, inner_dim] \<Rightarrow>
               (case original_shape extra_options of
                  None \<Rightarrow> Inl KeyError
                | Some orig \<Rightarrow>
                    (case drop 2 (take 4 orig) of
                       [height_orig, width_orig] \<Rightarrow>
                         if height_orig = 0 then Inl ZeroDivisionError
                         else
                           (case true_div prims width_orig height_orig of
                              Inl e \<Rightarrow> Inl e
                            | Inr aspect_ratio \<Rightarrow>
                                (case to_spatial prims aspect_ratio q of
                                   Inl e \<Rightarrow> Inl e
                                 | Inr q4 \<Rightarrow>
                                     (case perturb prims blur blur_sigma border_mode q4 of
                                        Inl e \<Rightarrow> Inl e
                                      | Inr q4' \<Rightarrow>
                                          (case from_spatial bs inner_dim q4' of
                                             Inl e \<Rightarrow> Inl e
                                           | Inr q' \<Rightarrow> Inr (q', heads)))))
                     | _ \<Rightarrow> Inl ValueError))
           | _ \<Rightarrow> Inl ValueError))"

text \<open>
  The function \<open>seg_attention_wrapper(attention, blur_sigma, border_mode)\<close> returns:
  it ends with \<^verbatim>\<open>return attention(q, k, v, heads=heads)\<close>.
\<close>

definition seg_perturbed_attention ::
  "('a tensor \<Rightarrow> 'k \<Rightarrow> 'v \<Rightarrow> int \<Rightarrow> 'r) \<Rightarrow> ('f, 'a) float_prims \<Rightarrow> 'f \<Rightarrow> string
     \<Rightarrow> ('f, 'a) blur \<Rightarrow> 'a tensor \<Rightarrow> 'k \<Rightarrow> 'v \<Rightarrow> extra_options \<Rightarrow> 'm option \<Rightarrow> error + 'r" where
  "seg_perturbed_attention attention prims blur_sigma border_mode blur q k v extra_options mask_arg =
     (case seg_perturbed_q prims blur_sigma border_mode blur q extra_options of
        Inl e \<Rightarrow> Inl e
      | Inr (q', heads) \<Rightarrow> Inr (attention q' k v heads))"

text \<open>
  Primitives for the examples. A float is given by its value, and each operation is
  defined only where binary floating point computes it without rounding: a quotient of
  two sizes with a denominator that divides \<open>1024\<close> times the numerator, the rounded
  root of a radicand that is exactly 1 or 4, six times a small integer, and the mean of
  a plane of small integers whose number is a power of two and whose mean is an
  integer. Everywhere else they return \<open>Unmodelled\<close>.
\<close>

definition example_prims :: "(real, real) float_prims" where
  "example_prims =
     \<lparr>true_div = (\<lambda>w h. if 0 < h \<and> w \<le> 1024 \<and> h dvd 1024 * w
                         then Inr (real w / real h) else Inl Unmodelled),
      ge_one = (\<lambda>x. 1 \<le> x),
      round_root_div = (\<lambda>area x. if real area / x = 1 then Inr 1
                                  else if real area / x = 4 then Inr 2 else Inl Unmodelled),
      round_root_mul = (\<lambda>area x. if real area * x = 1 then Inr 1
                                  else if real area * x = 4 then Inr 2 else Inl Unmodelled),
      ge_zero = (\<lambda>s. 0 \<le> s),
      ceil_six = (\<lambda>s. if of_int \<lfloor>s\<rfloor> = s \<and> \<bar>s\<bar> \<le> 1024 then Inr \<lceil>6 * s\<rceil>
                      else Inl Unmodelled),
      plane_mean = (\<lambda>xs. let m = sum_list xs / real (length xs)
                         in if length xs dvd 1024
                               \<and> list_all (\<lambda>x. of_int \<lfloor>x\<rfloor> = x \<and> \<bar>x\<bar> \<le> 1024) xs
                               \<and> of_int \<lfloor>m\<rfloor> = m
                            then Inr m else Inl Unmodelled)\<rparr>"

text \<open>
  Inputs for the examples: a query of eight elements on a square image with its spatial
  form and its mean field, a query of area 8 on an image twice as wide as high, a query
  of area 9 on an image of height 4 and width 9, a blur that always raises, and an
  attention function that returns the query it is given.
\<close>

definition example_q :: "real tensor" where
  "example_q = \<lparr>shape = [1, 4, 2], elems = [1, 2, 3, 4, 5, 6, 7, 8]\<rparr>"

definition example_q4 :: "real tensor" where
  "example_q4 = \<lparr>shape = [1, 2, 2, 2], elems = [1, 3, 5, 7, 2, 4, 6, 8]\<rparr>"

definition example_q4_mean :: "real tensor" where
  "example_q4_mean = \<lparr>shape = [1, 2, 2, 2], elems = [4, 4, 4, 4, 5, 5, 5, 5]\<rparr>"

definition example_options :: extra_options where
  "example_options = \<lparr>n_heads = Some 8, original_shape = Some [1, 4, 2, 2]\<rparr>"




definition failing_blur :: "(real, real) blur" where
  "failing_blur kernel_size sigma border_mode q = Inl ValueError"

definition return_q :: "real tensor \<Rightarrow> unit \<Rightarrow> unit \<Rightarrow> int \<Rightarrow> real tensor" where
  "return_q q k v heads = q"

subsection \<open>Run-length groups\<close>

text \<open>
  \<^verbatim>\<open>def group_blocks(blocks): return [(i, len(list(gr))) for i, gr in groupby(blocks)]\<close>
  \<open>itertools.groupby\<close> without a key takes the next element \<open>i\<close> and consumes the
  elements equal to it that follow directly; the group is \<open>i\<close> and that run.
\<close>

function group_blocks :: "int list \<Rightarrow> (int \<times> nat) list" where
  "group_blocks [] = []"
| "group_blocks (i # blocks) =
     (i, Suc (length (takeWhile (\<lambda>j. j = i) blocks)))
       # group_blocks (dropWhile (\<lambda>j. j = i) blocks)"
  by pat_completeness auto
termination
  by (relation "measure length") (auto simp: less_Suc_eq_le length_dropWhile_le)

text \<open>The list a sequence of \<open>(value, count)\<close> pairs stands for.\<close>

definition expand_groups :: "(int \<times> nat) list \<Rightarrow> int list" where
  "expand_groups gs = concat (map (\<lambda>(v, n). replicate n v) gs)"

subsection \<open>Python strings and integers\<close>

text \<open>
  Strings are ASCII strings. \<open>py_isspace\<close> is \<open>str.isspace\<close> on an ASCII character,
  the characters \<open>str.strip()\<close> removes: tab, line feed, vertical tab, form feed,
  carriage return, the four separators \<open>0x1C\<close> to \<open>0x1F\<close> and the space.
\<close>

definition py_isspace :: "char \<Rightarrow> bool" where
  "py_isspace c \<longleftrightarrow>
     c \<in> set [CHR 0x09, CHR 0x0A, CHR 0x0B, CHR 0x0C, CHR 0x0D,
              CHR 0x1C, CHR 0x1D, CHR 0x1E, CHR 0x1F, CHR 0x20]"

definition py_strip :: "string \<Rightarrow> string" where
  "py_strip s = rev (dropWhile py_isspace (rev (dropWhile py_isspace s)))"

text \<open>
  \<open>s.split(sep)\<close> with a separator of one character: the pieces between the
  separators, empty pieces included, so the result is never empty.
\<close>

fun py_split :: "char \<Rightarrow> string \<Rightarrow> string list" where
  "py_split sep [] = [[]]"
| "py_split sep (c # s) =
     (let r = py_split sep s in if c = sep then [] # r else (c # hd r) # tl r)"

text \<open>\<open>s.startswith(p)\<close> and \<open>s.endswith(p)\<close>.\<close>

definition startswith :: "string \<Rightarrow> string \<Rightarrow> bool" where
  "startswith s p \<longleftrightarrow> take (length p) s = p"

definition endswith :: "string \<Rightarrow> string \<Rightarrow> bool" where
  "endswith s p \<longleftrightarrow> length p \<le> length s \<and> drop (length s - length p) s = p"

text \<open>
  \<open>int(s)\<close> on an ASCII string: whitespace is removed on both sides (here only tab,
  line feed, vertical tab, form feed, carriage return and space), then comes an optional
  sign, then decimal digits, where single underscores may stand between two digits. More
  than \<open>max_str_digits\<close> digits are refused (the interpreter's default limit for the
  conversion of strings to integers). Everything else is a \<open>ValueError\<close>.
\<close>

definition int_isspace :: "char \<Rightarrow> bool" where
  "int_isspace c \<longleftrightarrow> c \<in> set [CHR 0x09, CHR 0x0A, CHR 0x0B, CHR 0x0C, CHR 0x0D, CHR 0x20]"

definition is_digit :: "char \<Rightarrow> bool" where
  "is_digit c \<longleftrightarrow> c \<in> set ''0123456789''"

definition digit_val :: "char \<Rightarrow> nat" where
  "digit_val c = of_char c - 48"

fun py_digits :: "bool \<Rightarrow> nat \<Rightarrow> string \<Rightarrow> nat option" where
  "py_digits after_digit acc [] = (if after_digit then Some acc else None)"
| "py_digits after_digit acc (c # cs) =
     (if is_digit c then py_digits True (10 * acc + digit_val c) cs
      else if c = CHR ''_'' \<and> after_digit then py_digits False acc cs
      else None)"

definition max_str_digits :: nat where
  "max_str_digits = 4300"

definition py_int :: "string \<Rightarrow> error + int" where
  "py_int s =
     (let t = rev (dropWhile int_isspace (rev (dropWhile int_isspace s)));
          negative = (t \<noteq> [] \<and> hd t = CHR ''-'');
          body = (if t \<noteq> [] \<and> (hd t = CHR ''-'' \<or> hd t = CHR ''+'') then tl t else t)
      in case py_digits False 0 body of
           None \<Rightarrow> Inl ValueError
         | Some n \<Rightarrow>
             if max_str_digits < length (filter is_digit body) then Inl ValueError
             else Inr (if negative then - int n else int n))"

text \<open>\<open>xs[i]\<close> on a list: a negative index counts from the end.\<close>

definition py_getitem :: "'a list \<Rightarrow> int \<Rightarrow> error + 'a" where
  "py_getitem xs i =
     (if 0 \<le> i \<and> i < int (length xs) then Inr (xs ! nat i)
      else if i < 0 \<and> - int (length xs) \<le> i then Inr (xs ! nat (int (length xs) + i))
      else Inl IndexError)"

subsection \<open>The selector parser\<close>

text \<open>
  The model argument is what \<open>model.diffusion_model.named_modules()\<close> yields: the
  dotted name of each submodule with the name of its class. The first loop of
  \<open>parse_unet_blocks\<close> collects the block ids of the self-attention modules:
  \<^verbatim>\<open>if module.__class__.__name__ == "CrossAttention" and name.endswith("attn1"):
      parts = name.split(".")
      block_name = parts[0]
      block_id = int(parts[1])
      if block_name.startswith("input"): input_blocks.append(block_id)
      elif block_name.startswith("middle"): middle_blocks.append(block_id - 1)
      elif block_name.startswith("output"): output_blocks.append(block_id)\<close>
  \<open>parts[1]\<close> raises \<open>IndexError\<close> when the name has no dot.
\<close>

type_synonym blocks = "int list \<times> int list \<times> int list"

fun self_attention_blocks :: "(string \<times> string) list \<Rightarrow> blocks \<Rightarrow> error + blocks" where
  "self_attention_blocks [] acc = Inr acc"
| "self_attention_blocks ((name, class_name) # named_modules)
       (input_blocks, middle_blocks, output_blocks) =
     (if class_name = ''CrossAttention'' \<and> endswith name ''attn1'' then
        (let parts = py_split CHR ''.'' name;
             block_name = parts ! 0
         in case (if length parts < 2 then Inl IndexError else py_int (parts ! 1)) of
              Inl e \<Rightarrow> Inl e
            | Inr block_id \<Rightarrow>
                if startswith block_name ''input'' then
                  self_attention_blocks named_modules
                    (input_blocks @ [block_id], middle_blocks, output_blocks)
                else if startswith block_name ''middle'' then
                  self_attention_blocks named_modules
                    (input_blocks, middle_blocks @ [block_id - 1], output_blocks)
                else if startswith block_name ''output'' then
                  self_attention_blocks named_modules
                    (input_blocks, middle_blocks, output_blocks @ [block_id])
                else self_attention_blocks named_modules
                    (input_blocks, middle_blocks, output_blocks))
      else self_attention_blocks named_modules (input_blocks, middle_blocks, output_blocks))"

text \<open>The three lists after \<open>group_blocks\<close>.\<close>

record unet_groups =
  input_groups :: "(int \<times> nat) list"
  middle_groups :: "(int \<times> nat) list"
  output_groups :: "(int \<times> nat) list"

text \<open>
  The locals \<open>layer\<close> and \<open>cur_blocks\<close> are assigned together by the \<open>match\<close>
  statement, which has no default case: for any other first character they keep what
  they had, and before the first assignment they are unbound (\<open>None\<close>).
  \<^verbatim>\<open>match name:
      case "d": layer, cur_blocks = "input", input_blocks
      case "m": layer, cur_blocks = "middle", middle_blocks
      case "u": layer, cur_blocks = "output", output_blocks\<close>
\<close>

type_synonym bound = "(string \<times> (int \<times> nat) list) option"
type_synonym address = "string \<times> int \<times> int option"

definition match_name :: "unet_groups \<Rightarrow> bound \<Rightarrow> char \<Rightarrow> bound" where
  "match_name g bound name =
     (if name = CHR ''d'' then Some (''input'', input_groups g)
      else if name = CHR ''m'' then Some (''middle'', middle_groups g)
      else if name = CHR ''u'' then Some (''output'', output_groups g)
      else bound)"

text \<open>\<^verbatim>\<open>cur_blocks[int(indices[0])]\<close>, a \<open>(number, count)\<close> pair.\<close>

definition cur_block :: "(int \<times> nat) list \<Rightarrow> string \<Rightarrow> error + (int \<times> nat)" where
  "cur_block cur_blocks field =
     (case py_int field of Inl e \<Rightarrow> Inl e | Inr i \<Rightarrow> py_getitem cur_blocks i)"

text \<open>
  One iteration of the loop over the stripped tokens:
  \<^verbatim>\<open>name, indices = block[0], block[1:].split(".")
  match name: ...
  if len(indices) >= 2:
      number, index = cur_blocks[int(indices[0])][0], int(indices[1])
      assert 0 <= index < cur_blocks[int(indices[0])][1]
  else:
      number, index = cur_blocks[int(indices[0])][0], None
  output.append((layer, number, index))\<close>
  \<open>block[0]\<close> raises \<open>IndexError\<close> on an empty token. Both branches read \<open>cur_blocks\<close>
  first, which raises \<open>UnboundLocalError\<close> while it is unbound. The iteration returns
  the bindings it leaves and the address it appends.
\<close>

definition parse_block :: "unet_groups \<Rightarrow> bound \<Rightarrow> string \<Rightarrow> error + (bound \<times> address)" where
  "parse_block g bound block =
     (case block of
        [] \<Rightarrow> Inl IndexError
      | name # rest \<Rightarrow>
          (let indices = py_split CHR ''.'' rest;
               bound' = match_name g bound name
           in case bound' of
                None \<Rightarrow> Inl UnboundLocalError
              | Some (layer, cur_blocks) \<Rightarrow>
                  if 2 \<le> length indices then
                    (case cur_block cur_blocks (indices ! 0) of
                       Inl e \<Rightarrow> Inl e
                     | Inr (number, count) \<Rightarrow>
                         (case py_int (indices ! 1) of
                            Inl e \<Rightarrow> Inl e
                          | Inr index \<Rightarrow>
                              if 0 \<le> index \<and> index < int count
                              then Inr (bound', (layer, number, Some index))
                              else Inl AssertionError))
                  else
                    (case cur_block cur_blocks (indices ! 0) of
                       Inl e \<Rightarrow> Inl e
                     | Inr (number, count) \<Rightarrow> Inr (bound', (layer, number, None)))))"

text \<open>The loop: the first exception ends the call, and no list is returned then.\<close>

fun parse_blocks ::
  "unet_groups \<Rightarrow> bound \<Rightarrow> address list \<Rightarrow> string list \<Rightarrow> error + (bound \<times> address list)" where
  "parse_blocks g bound output [] = Inr (bound, output)"
| "parse_blocks g bound output (block # unet_blocks) =
     (case parse_block g bound block of
        Inl e \<Rightarrow> Inl e
      | Inr (bound', a) \<Rightarrow> parse_blocks g bound' (output @ [a]) unet_blocks)"

text \<open>The first loop followed by the three calls of \<open>group_blocks\<close>.\<close>

definition self_attention_groups :: "(string \<times> string) list \<Rightarrow> error + unet_groups" where
  "self_attention_groups model =
     (case self_attention_blocks model ([], [], []) of
        Inl e \<Rightarrow> Inl e
      | Inr (input_blocks, middle_blocks, output_blocks) \<Rightarrow>
          Inr \<lparr>input_groups = group_blocks input_blocks,
               middle_groups = group_blocks middle_blocks,
               output_groups = group_blocks output_blocks\<rparr>)"

text \<open>
  \<^verbatim>\<open>unet_blocks = [b.strip() for b in unet_block_list.split(",")]\<close>, then the loop.
\<close>

definition parse_unet_blocks :: "(string \<times> string) list \<Rightarrow> string \<Rightarrow> error + address list" where
  "parse_unet_blocks model unet_block_list =
     (case self_attention_groups model of
        Inl e \<Rightarrow> Inl e
      | Inr g \<Rightarrow>
          (let unet_blocks = map py_strip (py_split CHR '','' unet_block_list)
           in case parse_blocks g None [] unet_blocks of
                Inl e \<Rightarrow> Inl e
              | Inr (bound, output) \<Rightarrow> Inr output))"

text \<open>
  A model with one self-attention module in input block 1 and five in the middle block,
  so that the groups are \<open>input = [(1,1)]\<close>, \<open>middle = [(0,1),(1,4)]\<close>, \<open>output = []\<close>.
\<close>

definition example_model :: "(string \<times> string) list" where
  "example_model =
     [(''input_blocks.1.1.transformer_blocks.0.attn1'', ''CrossAttention''),
      (''input_blocks.1.1.transformer_blocks.0.attn2'', ''CrossAttention''),
      (''input_blocks.1.1.transformer_blocks.0'', ''BasicTransformerBlock''),
      (''middle_block.1.transformer_blocks.0.attn1'', ''CrossAttention''),
      (''middle_block.2.transformer_blocks.0.attn1'', ''CrossAttention''),
      (''middle_block.2.transformer_blocks.1.attn1'', ''CrossAttention''),
      (''middle_block.2.transformer_blocks.2.attn1'', ''CrossAttention''),
      (''middle_block.2.transformer_blocks.3.attn1'', ''CrossAttention'')]"

definition example_groups :: unet_groups where
  "example_groups =
     \<lparr>input_groups = [(1, 1)], middle_groups = [(0, 1), (1, 4)], output_groups = []\<rparr>"

subsection \<open>The selector grammar of the specification\<close>

text \<open>
  The grammar as the specification words it:
  \<^verbatim>\<open>selector_list := token (',' token)*
  token         := layer_char digits ('.' digits)?
  layer_char    := 'd' | 'm' | 'u'\<close>
  with whitespace around tokens ignored. A token is given by its layer character and its
  one or two digit fields; a selector list by its tokens, each with the whitespace
  before and after it.
\<close>

definition grammar_digits :: "string \<Rightarrow> bool" where
  "grammar_digits s \<longleftrightarrow> s \<noteq> [] \<and> list_all is_digit s"

definition grammar_layer_char :: "char \<Rightarrow> bool" where
  "grammar_layer_char c \<longleftrightarrow> c = CHR ''d'' \<or> c = CHR ''m'' \<or> c = CHR ''u''"

type_synonym grammar_token = "char \<times> string \<times> string option"

fun grammar_token :: "grammar_token \<Rightarrow> bool" where
  "grammar_token (c, ds, None) \<longleftrightarrow> grammar_layer_char c \<and> grammar_digits ds"
| "grammar_token (c, ds, Some ss) \<longleftrightarrow> grammar_layer_char c \<and> grammar_digits ds \<and> grammar_digits ss"

fun token_text :: "grammar_token \<Rightarrow> string" where
  "token_text (c, ds, None) = c # ds"
| "token_text (c, ds, Some ss) = c # ds @ CHR ''.'' # ss"

fun selector_text :: "(string \<times> grammar_token \<times> string) list \<Rightarrow> string" where
  "selector_text [] = []"
| "selector_text [(l, t, r)] = l @ token_text t @ r"
| "selector_text ((l, t, r) # x # xs) = l @ token_text t @ r @ CHR '','' # selector_text (x # xs)"

text \<open>The value of a digit field, and the group list a layer character stands for.\<close>

definition digits_value :: "string \<Rightarrow> nat" where
  "digits_value ds = foldl (\<lambda>acc c. 10 * acc + digit_val c) 0 ds"

definition layer_of :: "char \<Rightarrow> string" where
  "layer_of c = (if c = CHR ''d'' then ''input'' else if c = CHR ''m'' then ''middle'' else ''output'')"

definition groups_of :: "unet_groups \<Rightarrow> char \<Rightarrow> (int \<times> nat) list" where
  "groups_of g c = (if c = CHR ''d'' then input_groups g else if c = CHR ''m'' then middle_groups g else output_groups g)"

text \<open>
  The token addresses an existing group, and a sub-index below the count of that group;
  no digit field is longer than \<open>max_str_digits\<close>.
\<close>

fun token_in_range :: "unet_groups \<Rightarrow> grammar_token \<Rightarrow> bool" where
  "token_in_range g (c, ds, None) \<longleftrightarrow>
     length ds \<le> max_str_digits \<and> digits_value ds < length (groups_of g c)"
| "token_in_range g (c, ds, Some ss) \<longleftrightarrow>
     length ds \<le> max_str_digits \<and> digits_value ds < length (groups_of g c) \<and>
     length ss \<le> max_str_digits \<and> digits_value ss < snd (groups_of g c ! digits_value ds)"

text \<open>The address the specification gives for a token.\<close>

fun token_address :: "unet_groups \<Rightarrow> grammar_token \<Rightarrow> address" where
  "token_address g (c, ds, sub) =
     (layer_of c, fst (groups_of g c ! digits_value ds), map_option (\<lambda>ss. int (digits_value ss)) sub)"

definition padding :: "string \<Rightarrow> bool" where
  "padding s \<longleftrightarrow> list_all py_isspace s"

section \<open>Properties\<close>

subsection \<open>Run-length groups\<close>

lemma expand_group_blocks: "expand_groups (group_blocks xs) = xs"
proof (induction xs rule: group_blocks.induct)
  case 1
  show ?case by (simp add: expand_groups_def)
next
  case (2 i blocks)
  have "replicate (length (takeWhile (\<lambda>j. j = i) blocks)) i = takeWhile (\<lambda>j. j = i) blocks"
    by (rule replicate_length_same) (auto dest: set_takeWhileD)
  with 2 show ?case by (simp add: expand_groups_def)
qed

lemma group_blocks_counts_pos: "0 \<notin> snd ` set (group_blocks xs)"
  by (induction xs rule: group_blocks.induct) auto

lemma group_blocks_distinct_adj: "distinct_adj (map fst (group_blocks xs))"
proof (induction xs rule: group_blocks.induct)
  case 1
  show ?case by simp
next
  case (2 i blocks)
  show ?case
  proof (cases "dropWhile (\<lambda>j. j = i) blocks")
    case Nil
    then have "group_blocks (dropWhile (\<lambda>j. j = i) blocks) = []"
      by (simp only: group_blocks.simps)
    then show ?thesis
      by (simp only: group_blocks.simps list.map distinct_adj_singleton)
  next
    case (Cons y ys)
    then have "y \<noteq> i" using hd_dropWhile[of "\<lambda>j. j = i" blocks] by auto
    with 2 Cons show ?thesis by (simp add: distinct_adj_Cons)
  qed
qed

lemma group_blocks_expand:
  "distinct_adj (map fst gs) \<Longrightarrow> 0 \<notin> snd ` set gs \<Longrightarrow> group_blocks (expand_groups gs) = gs"
proof (induction gs)
  case Nil
  show ?case by (simp add: expand_groups_def)
next
  case (Cons g gs)
  obtain v n where g: "g = (v, n)" by (cases g)
  from Cons.prems g obtain m where n: "n = Suc m" by (cases n) auto
  have ih: "group_blocks (expand_groups gs) = gs"
    using Cons by (auto simp: distinct_adj_Cons)
  have nohd: "expand_groups gs = [] \<or> hd (expand_groups gs) \<noteq> v"
  proof (cases gs)
    case Nil
    then show ?thesis by (simp add: expand_groups_def)
  next
    case (Cons h hs)
    obtain w k where h: "h = (w, k)" by (cases h)
    from Cons h g have "w \<noteq> v" "k \<noteq> 0"
      using \<open>distinct_adj (map fst (g # gs))\<close> \<open>0 \<notin> snd ` set (g # gs)\<close>
      by (auto simp: distinct_adj_Cons)
    then show ?thesis using Cons h by (cases k) (auto simp: expand_groups_def)
  qed
  have e: "expand_groups ((v, Suc m) # gs) = v # replicate m v @ expand_groups gs"
    by (simp add: expand_groups_def)
  have tw: "takeWhile (\<lambda>j. j = v) (replicate m v @ expand_groups gs) = replicate m v"
    using nohd by (cases "expand_groups gs") (auto simp: takeWhile_append)
  have dw: "dropWhile (\<lambda>j. j = v) (replicate m v @ expand_groups gs) = expand_groups gs"
    using nohd by (cases "expand_groups gs") (auto simp: dropWhile_append)
  have "group_blocks (v # replicate m v @ expand_groups gs) = (v, Suc m) # gs"
    by (simp only: group_blocks.simps tw dw ih length_replicate)
  then show ?case by (simp only: g n e)
qed

text \<open>
  Claim C8. The run-length encoding keeps the order and merges exactly the maximal runs
  of consecutive equal values: \<open>gs\<close> is the encoding of \<open>blocks\<close> if and only if \<open>gs\<close>
  expands to \<open>blocks\<close>, no count is zero and no two neighbouring groups have the same
  value. A value that comes back after another one starts a group of its own:
  \<open>[0,0,1,1,1,0]\<close> encodes to \<open>[(0,2),(1,3),(0,1)]\<close>.
\<close>

theorem group_blocks_run_length:
  "(group_blocks blocks = gs \<longleftrightarrow>
      expand_groups gs = blocks \<and> 0 \<notin> snd ` set gs \<and> distinct_adj (map fst gs))
   \<and> group_blocks [0, 0, 1, 1, 1, 0] = [(0, 2), (1, 3), (0, 1)]"
proof
  show "group_blocks blocks = gs \<longleftrightarrow>
      expand_groups gs = blocks \<and> 0 \<notin> snd ` set gs \<and> distinct_adj (map fst gs)"
    using expand_group_blocks group_blocks_counts_pos group_blocks_distinct_adj
      group_blocks_expand by blast
  show "group_blocks [0, 0, 1, 1, 1, 0] = [(0, 2), (1, 3), (0, 1)]"
    by simp
qed

theorem group_blocks_run_length_witness:
  "expand_groups [(0, 2), (1, 3), (0, 1)] = [0, 0, 1, 1, 1, 0]
   \<and> 0 \<notin> snd ` set [(0, 2), (1, 3), (0 :: int, 1 :: nat)]
   \<and> distinct_adj (map fst [(0, 2), (1, 3), (0 :: int, 1 :: nat)])"
  using group_blocks_run_length [of "[0, 0, 1, 1, 1, 0]" "[(0, 2), (1, 3), (0, 1)]"]
  by simp

subsection \<open>The identity override\<close>

text \<open>
  Claim C9. For every \<open>q\<close>, \<open>k\<close>, \<open>v\<close>, \<open>extra_options\<close> and \<open>mask\<close>, of any type and
  shape, \<open>pag_perturbed_attention\<close> returns exactly \<open>v\<close>; it is a total pure function,
  so there is no error and no effect to account for.
\<close>

theorem pag_perturbed_attention_returns_v:
  "pag_perturbed_attention q k v extra_options mask_arg = v"
  by (simp add: pag_perturbed_attention_def)

subsection \<open>Kernel sizes\<close>

lemma odd_kernel_size_odd: "odd (odd_kernel_size blur_sigma)"
  by (auto simp: odd_kernel_size_def Let_def)

text \<open>
  Claim C4. The kernel size the wrapper uses, the ceiling of \<open>6 * blur_sigma\<close> plus one
  if that is even, capped at \<open>2 * min height width - 1\<close>, is odd and at most
  \<open>2 * min height width - 1\<close>. It holds for every \<open>blur_sigma\<close>, height and width, so in
  particular for \<open>blur_sigma \<ge> 0\<close> and positive sizes, and it depends on the ceiling
  only through the integer it returns.
\<close>

theorem capped_kernel_size_odd_bounded:
  "odd (capped_kernel_size blur_sigma height width)
   \<and> capped_kernel_size blur_sigma height width \<le> 2 * min (int height) (int width) - 1"
proof -
  have "odd (2 * min (int height) (int width) - 1)" by simp
  with odd_kernel_size_odd [of blur_sigma] show ?thesis
    by (simp add: capped_kernel_size_def Let_def min_def)
qed

text \<open>
  Claim C10. The formula of \<open>seg_attention_wrapper_old\<close> gives the same kernel size as
  the two statements of \<open>seg_attention_wrapper\<close> before the cap, and that size is the
  smallest odd integer that is at least the ceiling of \<open>6 * blur_sigma\<close>. It holds for
  every \<open>blur_sigma\<close>, so in particular for \<open>blur_sigma \<ge> 0\<close>.
\<close>

theorem old_kernel_size_eq_odd_kernel_size:
  "old_kernel_size blur_sigma = odd_kernel_size blur_sigma
   \<and> odd (odd_kernel_size blur_sigma)
   \<and> \<lceil>6 * blur_sigma\<rceil> \<le> odd_kernel_size blur_sigma
   \<and> (\<forall>m. odd m \<and> \<lceil>6 * blur_sigma\<rceil> \<le> m \<longrightarrow> odd_kernel_size blur_sigma \<le> m)"
proof -
  define c where "c = \<lceil>6 * blur_sigma\<rceil>"
  have 1: "c + 1 - c mod 2 = (if c mod 2 = 0 then c + 1 else c)"
    by presburger
  have 2: "odd (if c mod 2 = 0 then c + 1 else c)"
    by presburger
  have 3: "c \<le> (if c mod 2 = 0 then c + 1 else c)"
    by simp
  have 4: "\<forall>m. odd m \<and> c \<le> m \<longrightarrow> (if c mod 2 = 0 then c + 1 else c) \<le> m"
    by presburger
  from 1 2 3 4 show ?thesis
    unfolding old_kernel_size_def odd_kernel_size_def Let_def c_def by blast
qed

theorem old_kernel_size_eq_odd_kernel_size_witness:
  "old_kernel_size 1 = 7 \<and> odd_kernel_size 1 = 7 \<and> odd (9 :: int) \<and> \<lceil>6 * (1 :: real)\<rceil> \<le> 9
   \<and> odd_kernel_size 1 \<le> 9"
  using old_kernel_size_eq_odd_kernel_size [of 1]
  by (simp add: odd_kernel_size_def)

subsection \<open>The selector parser\<close>

lemmas parser_defs =
  parse_unet_blocks_def self_attention_groups_def endswith_def startswith_def py_int_def
  int_isspace_def is_digit_def digit_val_def max_str_digits_def py_isspace_def py_strip_def
  Let_def parse_block_def match_name_def cur_block_def py_getitem_def

lemma example_model_groups: "self_attention_groups example_model = Inr example_groups"
  by (simp add: example_model_def example_groups_def parser_defs)

lemma parse_blocks_append:
  "parse_blocks g bound out (xs @ ys) =
     (case parse_blocks g bound out xs of
        Inl e \<Rightarrow> Inl e
      | Inr (bound', out') \<Rightarrow> parse_blocks g bound' out' ys)"
  by (induction xs arbitrary: bound out) (auto split: sum.splits)

lemma py_split_notin: "sep \<notin> set s \<Longrightarrow> py_split sep s = [s]"
  by (induction s) (auto simp: Let_def)

lemma py_split_append:
  "sep \<notin> set a \<Longrightarrow> py_split sep (a @ sep # b) = a # py_split sep b"
  by (induction a) (auto simp: Let_def)

lemma py_strip_padded:
  assumes "list_all py_isspace l" "list_all py_isspace r"
    and "t \<noteq> []" "\<not> py_isspace (hd t)" "\<not> py_isspace (last t)"
  shows "py_strip (l @ t @ r) = t"
proof -
  have 1: "dropWhile py_isspace (l @ t @ r) = t @ r"
    using assms by (cases t) (auto simp: dropWhile_append2 list_all_iff)
  have "dropWhile py_isspace (rev r @ rev t) = dropWhile py_isspace (rev t)"
    using assms(2) by (intro dropWhile_append2) (simp add: list_all_iff)
  also have "\<dots> = rev t"
    using assms(3,5) by (cases t rule: rev_cases) auto
  finally have 2: "dropWhile py_isspace (rev r @ rev t) = rev t" .
  show ?thesis by (simp add: py_strip_def 1 2)
qed

lemma py_digits_all:
  "list_all is_digit ds \<Longrightarrow> ds \<noteq> [] \<or> b \<Longrightarrow>
     py_digits b acc ds = Some (foldl (\<lambda>acc c. 10 * acc + digit_val c) acc ds)"
  by (induction ds arbitrary: b acc) auto

lemma digit_not_space: "is_digit c \<Longrightarrow> \<not> int_isspace c \<and> \<not> py_isspace c \<and> c \<noteq> CHR ''-'' \<and> c \<noteq> CHR ''+'' \<and> c \<noteq> CHR ''.'' \<and> c \<noteq> CHR '',''"
  by (auto simp: is_digit_def int_isspace_def py_isspace_def)

lemma py_int_digits:
  assumes "grammar_digits ds" "length ds \<le> max_str_digits"
  shows "py_int ds = Inr (int (digits_value ds))"
proof -
  from assms obtain c cs where ds: "ds = c # cs" by (cases ds) (auto simp: grammar_digits_def)
  have all: "list_all is_digit ds" and ne: "ds \<noteq> []" using assms by (auto simp: grammar_digits_def)
  have hd: "is_digit (hd ds)" "is_digit (last ds)" 
    using all ne by (auto simp: list_all_iff)
  have 1: "dropWhile int_isspace ds = ds"
    using hd ne digit_not_space by (cases ds) auto
  have 2: "dropWhile int_isspace (rev ds) = rev ds"
    using hd ne digit_not_space by (cases ds rule: rev_cases) auto
  have 3: "filter is_digit ds = ds" using all by (simp add: list_all_iff)
  have 4: "hd ds \<noteq> CHR ''-''" "hd ds \<noteq> CHR ''+''" using hd digit_not_space by auto
  show ?thesis
    using 4 assms(2) by (simp add: py_int_def 1 2 3 Let_def py_digits_all[OF all] ne digits_value_def)
qed

lemma digits_no_sep:
  "grammar_digits ds \<Longrightarrow> CHR ''.'' \<notin> set ds \<and> CHR '','' \<notin> set ds"
  using digit_not_space by (auto simp: grammar_digits_def list_all_iff)

lemma match_name_layer:
  "grammar_layer_char c \<Longrightarrow> match_name g bound c = Some (layer_of c, groups_of g c)"
  by (auto simp: grammar_layer_char_def match_name_def layer_of_def groups_of_def)

lemma cur_block_digits:
  assumes "grammar_digits ds" "length ds \<le> max_str_digits" "digits_value ds < length gs"
  shows "cur_block gs ds = Inr (gs ! digits_value ds)"
  using assms by (simp add: cur_block_def py_int_digits py_getitem_def)

lemma parse_block_token:
  assumes "grammar_token t" "token_in_range g t"
  shows "parse_block g bound (token_text t) =
           Inr (Some (layer_of (fst t), groups_of g (fst t)), token_address g t)"
proof -
  obtain c ds sub where t: "t = (c, ds, sub)" by (cases t)
  show ?thesis
  proof (cases sub)
    case None
    with assms t have d: "grammar_digits ds" and c: "grammar_layer_char c"
      and r: "length ds \<le> max_str_digits" "digits_value ds < length (groups_of g c)"
      by auto
    have s: "py_split CHR ''.'' ds = [ds]"
      using digits_no_sep[OF d] by (simp add: py_split_notin)
    obtain v n where gv: "groups_of g c ! digits_value ds = (v, n)" by (cases "groups_of g c ! digits_value ds")
    show ?thesis
      by (simp add: t None parse_block_def Let_def s match_name_layer[OF c]
          cur_block_digits[OF d r] gv)
  next
    case (Some ss)
    with assms t have d: "grammar_digits ds" and c: "grammar_layer_char c"
      and r: "length ds \<le> max_str_digits" "digits_value ds < length (groups_of g c)"
      and d2: "grammar_digits ss"
      and r2: "length ss \<le> max_str_digits" "digits_value ss < snd (groups_of g c ! digits_value ds)"
      by auto
    have s: "py_split CHR ''.'' (ds @ CHR ''.'' # ss) = [ds, ss]"
      using digits_no_sep[OF d] digits_no_sep[OF d2] by (simp add: py_split_append py_split_notin)
    obtain v n where gv: "groups_of g c ! digits_value ds = (v, n)" by (cases "groups_of g c ! digits_value ds")
    show ?thesis
      using r2 by (simp add: t Some parse_block_def Let_def s match_name_layer[OF c]
          cur_block_digits[OF d r] gv py_int_digits[OF d2 r2(1)])
  qed
qed

lemma parse_blocks_tokens:
  assumes "\<forall>t \<in> set ts. grammar_token t \<and> token_in_range g t"
  shows "\<exists>bound'. parse_blocks g bound out (map token_text ts) =
           Inr (bound', out @ map (token_address g) ts)"
  using assms
proof (induction ts arbitrary: bound out)
  case Nil
  show ?case by simp
next
  case (Cons t ts)
  then have t: "grammar_token t" "token_in_range g t" by auto
  from Cons.IH[of "Some (layer_of (fst t), groups_of g (fst t))" "out @ [token_address g t]"] Cons.prems
  show ?case by (simp add: parse_block_token[OF t])
qed

lemma token_text_props:
  assumes "grammar_token t"
  shows "token_text t \<noteq> []" "\<not> py_isspace (hd (token_text t))" "\<not> py_isspace (last (token_text t))"
    "CHR '','' \<notin> set (token_text t)"
proof -
  obtain c ds sub where t: "t = (c, ds, sub)" by (cases t)
  from assms t have c: "grammar_layer_char c" and d: "grammar_digits ds" by (cases sub; simp)+
  have cs: "\<not> py_isspace c" "c \<noteq> CHR '',''" using c by (auto simp: grammar_layer_char_def py_isspace_def)
  have lastd: "\<And>s. grammar_digits s \<Longrightarrow> \<not> py_isspace (last s)"
    using digit_not_space by (auto simp: grammar_digits_def list_all_iff)
  show "token_text t \<noteq> []" by (cases sub; simp add: t)
  show "\<not> py_isspace (hd (token_text t))" using cs by (cases sub; simp add: t)
  show "\<not> py_isspace (last (token_text t))"
    using assms lastd[of ds] lastd d by (cases sub; auto simp: t grammar_digits_def)
  show "CHR '','' \<notin> set (token_text t)"
    using assms cs digits_no_sep by (cases sub; auto simp: t)
qed

lemma comma_not_space: "\<not> py_isspace CHR '',''"
  by (simp add: py_isspace_def)

lemma padding_no_comma: "padding s \<Longrightarrow> CHR '','' \<notin> set s"
  using comma_not_space unfolding padding_def list_all_iff by blast

lemma unet_blocks_selector_text:
  assumes "toks \<noteq> []"
    and "\<forall>(l, t, r) \<in> set toks. padding l \<and> padding r \<and> grammar_token t"
  shows "map py_strip (py_split CHR '','' (selector_text toks)) = map (\<lambda>(l, t, r). token_text t) toks"
  using assms
proof (induction toks rule: selector_text.induct)
  case 1
  then show ?case by simp
next
  case (2 l t r)
  then have p: "padding l" "padding r" "grammar_token t" by auto
  have strip: "py_strip (l @ token_text t @ r) = token_text t"
    using p token_text_props[OF p(3)] by (intro py_strip_padded) (simp_all add: padding_def)
  have "CHR '','' \<notin> set (l @ token_text t @ r)"
    using p padding_no_comma token_text_props(4) by auto
  then have "py_split CHR '','' (l @ token_text t @ r) = [l @ token_text t @ r]"
    by (rule py_split_notin)
  then show ?case
    by (simp add: strip)
next
  case (3 l t r x xs)
  then have p: "padding l" "padding r" "grammar_token t" by auto
  have strip: "py_strip (l @ token_text t @ r) = token_text t"
    using p token_text_props[OF p(3)] by (intro py_strip_padded) (simp_all add: padding_def)
  have "CHR '','' \<notin> set (l @ token_text t @ r)"
    using p padding_no_comma token_text_props(4) by auto
  then have "py_split CHR '','' ((l @ token_text t @ r) @ CHR '','' # selector_text (x # xs))
      = (l @ token_text t @ r) # py_split CHR '','' (selector_text (x # xs))"
    by (rule py_split_append)
  moreover have "map py_strip (py_split CHR '','' (selector_text (x # xs))) = map (\<lambda>(l, t, r). token_text t) (x # xs)"
    using 3 by simp
  ultimately show ?case
    by (simp add: strip)
qed

lemma py_split_nonempty: "py_split sep s \<noteq> []"
  by (induction s) (simp_all add: Let_def)

lemma py_split_append_sep:
  "py_split sep (a @ sep # b) = py_split sep a @ py_split sep b"
proof (induction a)
  case Nil
  show ?case by (simp add: Let_def)
next
  case (Cons c a)
  then show ?case
    using py_split_nonempty[of sep a] by (cases "py_split sep a") (simp_all add: Let_def)
qed

lemma parse_block_extra_fields:
  assumes "2 \<le> length (py_split CHR ''.'' rest)"
  shows "parse_block g bound (name # rest @ CHR ''.'' # junk) = parse_block g bound (name # rest)"
proof -
  obtain f0 f1 fs where f: "py_split CHR ''.'' rest = f0 # f1 # fs"
    using assms by (cases "py_split CHR ''.'' rest" rule: list.exhaust[case_product list.exhaust])
      (auto simp: Suc_le_eq intro: list.exhaust)
  have s: "py_split CHR ''.'' (rest @ CHR ''.'' # junk) = f0 # f1 # (fs @ py_split CHR ''.'' junk)"
    unfolding py_split_append_sep f by simp
  have i0: "py_split CHR ''.'' (rest @ CHR ''.'' # junk) ! 0 = py_split CHR ''.'' rest ! 0"
    by (simp add: s f)
  have i1: "py_split CHR ''.'' (rest @ CHR ''.'' # junk) ! 1 = py_split CHR ''.'' rest ! 1"
    by (simp add: s f)
  have l: "(2 \<le> length (py_split CHR ''.'' (rest @ CHR ''.'' # junk)))
             = (2 \<le> length (py_split CHR ''.'' rest))"
    by (simp add: s f)
  show ?thesis
    unfolding parse_block_def append_Cons list.case Let_def i0 i1 l by (rule refl)
qed

text \<open>
  Claim C6. A token with a sub-index field is checked against the count of the group it
  addresses. When the tokens before it have been parsed, its layer is bound, its first
  field selects the group \<open>(number, count)\<close> and its second field reads as \<open>index\<close>,
  then the call goes on with the address \<open>(layer, number, index)\<close> appended if
  \<open>0 \<le> index < count\<close>, and otherwise the whole call is an \<open>AssertionError\<close>: no
  list is returned, whatever the tokens before and after. Token \<open>m1.5\<close> against the
  middle groups \<open>[(0,1),(1,4)]\<close> fails so.
\<close>

theorem sub_index_assertion:
  assumes groups: "self_attention_groups model = Inr g"
    and tokens: "map py_strip (py_split CHR '','' unet_block_list) = before @ (name # rest) # after"
    and before: "parse_blocks g None [] before = Inr (bound, output)"
    and layer: "match_name g bound name = Some (layer, cur_blocks)"
    and fields: "py_split CHR ''.'' rest = f0 # f1 # extra"
    and group: "cur_block cur_blocks f0 = Inr (number, count)"
    and sub: "py_int f1 = Inr index"
  shows "parse_unet_blocks model unet_block_list =
     (if 0 \<le> index \<and> index < int count then
        (case parse_blocks g (Some (layer, cur_blocks))
                (output @ [(layer, number, Some index)]) after of
           Inl e \<Rightarrow> Inl e
         | Inr (bound', output') \<Rightarrow> Inr output')
      else Inl AssertionError)"
proof -
  have block: "parse_block g bound (name # rest) =
      (if 0 \<le> index \<and> index < int count
       then Inr (Some (layer, cur_blocks), (layer, number, Some index))
       else Inl AssertionError)"
    by (simp add: parse_block_def Let_def layer fields group sub)
  show ?thesis
    by (simp add: parse_unet_blocks_def groups tokens Let_def parse_blocks_append before block)
qed

theorem sub_index_assertion_witness:
  "self_attention_groups example_model = Inr example_groups
   \<and> map py_strip (py_split CHR '','' ''m1.5'') = [] @ (CHR ''m'' # ''1.5'') # []
   \<and> parse_blocks example_groups None [] [] = Inr (None, [])
   \<and> match_name example_groups None CHR ''m'' = Some (''middle'', [(0, 1), (1, 4)])
   \<and> py_split CHR ''.'' ''1.5'' = [''1'', ''5'']
   \<and> cur_block [(0, 1), (1, 4)] ''1'' = Inr (1, 4)
   \<and> py_int ''5'' = Inr 5
   \<and> \<not> (0 \<le> (5 :: int) \<and> (5 :: int) < int 4)
   \<and> parse_unet_blocks example_model ''m1.5'' = Inl AssertionError"
proof -
  have 1: "map py_strip (py_split CHR '','' ''m1.5'') = [] @ (CHR ''m'' # ''1.5'') # []"
    by (simp add: py_strip_def py_isspace_def)
  have 2: "parse_blocks example_groups None [] [] = Inr (None, [])"
    by simp
  have 3: "match_name example_groups None CHR ''m'' = Some (''middle'', [(0, 1), (1, 4)])"
    by (simp add: match_name_def example_groups_def)
  have 4: "py_split CHR ''.'' ''1.5'' = ''1'' # ''5'' # []"
    by simp
  have 5: "cur_block [(0, 1), (1, 4)] ''1'' = Inr (1, 4)"
    by (simp add: parser_defs)
  have 6: "py_int ''5'' = Inr 5"
    by (simp add: parser_defs)
  from sub_index_assertion [OF example_model_groups 1 2 3 4 5 6] example_model_groups 1 2 3 4 5 6
  show ?thesis by simp
qed

text \<open>
  Claim C1 says that a token whose first character is none of \<open>d\<close>, \<open>m\<close>, \<open>u\<close> makes
  the call fail wherever the token stands in the list. The \<open>match\<close> statement has no
  default case: such a token at the first position ends the call with an
  \<open>UnboundLocalError\<close>, but after a valid token it is read with the layer of that
  token, and the call returns a list. On \<open>example_model\<close>, \<open>d0,x0\<close> yields two
  addresses of the input layer, and \<open>x0,d0\<close> fails.
\<close>

theorem invalid_prefix_reuses_previous_layer:
  "parse_unet_blocks example_model ''d0,x0'' = Inr [(''input'', 1, None), (''input'', 1, None)]
   \<and> parse_unet_blocks example_model ''x0,d0'' = Inl UnboundLocalError"
  by (simp add: example_model_groups parse_unet_blocks_def example_groups_def parse_block_def
      match_name_def cur_block_def py_getitem_def py_int_def int_isspace_def is_digit_def
      digit_val_def max_str_digits_def py_isspace_def py_strip_def Let_def)

text \<open>
  Claim C7 as stated says that a token with more than two dot-separated fields is
  rejected. The parser tests \<open>len(indices) >= 2\<close> and never looks at a third field:
  \<open>d0.0.7\<close> is accepted on \<open>example_model\<close>.
\<close>

theorem extra_fields_accepted:
  "parse_unet_blocks example_model ''d0.0.7'' = Inr [(''input'', 1, Some 0)]"
  by (simp add: example_model_groups parse_unet_blocks_def example_groups_def parse_block_def
      match_name_def cur_block_def py_getitem_def py_int_def int_isspace_def is_digit_def
      digit_val_def max_str_digits_def py_isspace_def py_strip_def Let_def)

text \<open>
  Claim C7, as amended. Every selector list of the grammar (tokens of a layer character,
  a digit field and optionally a dot and a second digit field, separated by commas, with
  whitespace around the tokens) is accepted when each token addresses an existing group
  and a sub-index below its count and no digit field is longer than \<open>max_str_digits\<close>;
  the result is the list of the addresses of the tokens, in order. Strings outside the
  grammar are not all rejected: in a token that has two fields, a further dot and
  whatever follows it are ignored.
\<close>

theorem grammar_selectors_accepted:
  assumes groups: "self_attention_groups model = Inr g"
    and nonempty: "toks \<noteq> []"
    and wf: "\<forall>(l, t, r) \<in> set toks. padding l \<and> padding r \<and> grammar_token t \<and> token_in_range g t"
  shows "parse_unet_blocks model (selector_text toks) =
           Inr (map (\<lambda>(l, t, r). token_address g t) toks)
       \<and> (\<forall>bound name rest junk.
             2 \<le> length (py_split CHR ''.'' rest) \<longrightarrow>
             parse_block g bound (name # rest @ CHR ''.'' # junk)
               = parse_block g bound (name # rest))"
proof -
  define ts where "ts = map (\<lambda>(l, t, r). t) toks"
  have 1: "map py_strip (py_split CHR '','' (selector_text toks)) = map token_text ts"
    using unet_blocks_selector_text[OF nonempty] wf by (auto simp: ts_def case_prod_unfold)
  have "\<forall>t \<in> set ts. grammar_token t \<and> token_in_range g t"
    using wf by (auto simp: ts_def)
  from parse_blocks_tokens[OF this, of None "[]"]
  obtain b where 2: "parse_blocks g None [] (map token_text ts) = Inr (b, map (token_address g) ts)"
    by auto
  have 3: "map (token_address g) ts = map (\<lambda>(l, t, r). token_address g t) toks"
    by (simp add: ts_def case_prod_unfold comp_def)
  have "parse_unet_blocks model (selector_text toks) = Inr (map (token_address g) ts)"
    unfolding parse_unet_blocks_def groups Let_def 1 by (simp add: 2)
  then have "parse_unet_blocks model (selector_text toks) =
           Inr (map (\<lambda>(l, t, r). token_address g t) toks)"
    by (simp only: 3)
  then show ?thesis
    using parse_block_extra_fields by blast
qed

theorem grammar_selectors_accepted_witness:
  "self_attention_groups example_model = Inr example_groups
   \<and> [('' '', (CHR ''d'', ''0'', None), []), ([], (CHR ''m'', ''1'', Some ''2''), '' '')] \<noteq> []
   \<and> padding '' '' \<and> padding [] \<and> grammar_token (CHR ''d'', ''0'', None)
   \<and> token_in_range example_groups (CHR ''d'', ''0'', None)
   \<and> grammar_token (CHR ''m'', ''1'', Some ''2'')
   \<and> token_in_range example_groups (CHR ''m'', ''1'', Some ''2'')
   \<and> selector_text [('' '', (CHR ''d'', ''0'', None), []),
                      ([], (CHR ''m'', ''1'', Some ''2''), '' '')] = '' d0,m1.2 ''
   \<and> parse_unet_blocks example_model '' d0,m1.2 ''
       = Inr [(''input'', 1, None), (''middle'', 1, Some 2)]
   \<and> 2 \<le> length (py_split CHR ''.'' ''0.0'')
   \<and> parse_block example_groups None ''d0.0.7'' = parse_block example_groups None ''d0.0''"
proof -
  let ?toks = "[('' '', (CHR ''d'', ''0'', None), []), ([], (CHR ''m'', ''1'', Some ''2''), '' '')]"
  have 1: "?toks \<noteq> []" by simp
  have 2: "\<forall>(l, t, r) \<in> set ?toks.
         padding l \<and> padding r \<and> grammar_token t \<and> token_in_range example_groups t"
    by (simp add: padding_def py_isspace_def grammar_digits_def grammar_layer_char_def
        is_digit_def digits_value_def digit_val_def groups_of_def example_groups_def
        max_str_digits_def)
  have 3: "2 \<le> length (py_split CHR ''.'' ''0.0'')" by simp
  note inst = grammar_selectors_accepted [OF example_model_groups 1 2]
  from inst have "parse_block example_groups None (CHR ''d'' # ''0.0'' @ CHR ''.'' # ''7'')
                   = parse_block example_groups None (CHR ''d'' # ''0.0'')"
    using 3 by blast
  then have 4: "parse_block example_groups None ''d0.0.7'' = parse_block example_groups None ''d0.0''"
    by simp
  from inst example_model_groups 1 2 3 4
  show ?thesis
    by (simp add: layer_of_def groups_of_def digits_value_def digit_val_def example_groups_def)
qed

subsection \<open>The blurring wrapper\<close>

lemma flat_index_parts:
  fixes i a c m n :: nat
  assumes "a < m" "c < n"
  shows "(i * (m * n) + a * n + c) div (m * n) = i"
    and "((i * (m * n) + a * n + c) div n) mod m = a"
    and "(i * (m * n) + a * n + c) mod n = c"
proof -
  have r: "i * (m * n) + a * n + c = (i * m + a) * n + c"
    by (simp add: algebra_simps)
  have d: "(i * (m * n) + a * n + c) div n = i * m + a"
    using assms by (simp add: r)
  show "(i * (m * n) + a * n + c) mod n = c"
    using assms by (simp add: r)
  show "((i * (m * n) + a * n + c) div n) mod m = a"
    using assms by (simp add: d)
  have "(i * (m * n) + a * n + c) div (n * m) = (i * m + a) div m"
    by (simp only: div_mult2_eq d)
  then show "(i * (m * n) + a * n + c) div (m * n) = i"
    using assms by (simp add: mult.commute)
qed

lemma flat_index_decomp:
  fixes p m n :: nat
  shows "p = (p div (m * n)) * (m * n) + ((p div n) mod m) * n + p mod n"
proof -
  have "p div (m * n) = p div n div m"
    by (metis div_mult2_eq mult.commute)
  moreover have "p div n = (p div n div m) * m + (p div n) mod m" by simp
  ultimately have "p div n = (p div (m * n)) * m + (p div n) mod m"
    by simp
  then have "(p div n) * n = ((p div (m * n)) * m + (p div n) mod m) * n" by simp
  then have "(p div n) * n = (p div (m * n)) * (m * n) + ((p div n) mod m) * n"
    by (simp add: algebra_simps)
  moreover have "p = (p div n) * n + p mod n" by simp
  ultimately show ?thesis by linarith
qed

lemma permute_021_elems:
  "shape t = [b, m, n] \<Longrightarrow>
     permute_021 t = Inr \<lparr>shape = [b, n, m], elems = map (\<lambda>p. elems t ! source_index m n p) [0..<b * n * m]\<rparr>"
  by (simp add: permute_021_def)

lemma source_index_triple:
  assumes "a < m" "c < n"
  shows "source_index m n (i * (n * m) + c * m + a) = i * (m * n) + a * n + c"
  using flat_index_parts[OF assms(2,1), of i] by (simp add: source_index_def)

lemma source_index_bound:
  assumes "p < b * n * m"
  shows "source_index m n p < b * m * n"
proof -
  from assms have pos: "0 < m" "0 < n" by (cases m; cases n; simp)+
  have i: "p div (n * m) < b" using assms pos
    by (simp add: less_mult_imp_div_less mult.assoc)
  have "(p mod m) * n + (p div m) mod n < m * n"
  proof -
    have "p mod m < m" "(p div m) mod n < n" using pos by simp_all
    then have "(p mod m) * n + (p div m) mod n < (p mod m) * n + n" by simp
    also have "\<dots> = (p mod m + 1) * n" by (simp add: algebra_simps)
    also have "\<dots> \<le> m * n" using \<open>p mod m < m\<close> by (intro mult_le_mono1) simp
    finally show ?thesis .
  qed
  then have "source_index m n p < (p div (n * m)) * (m * n) + m * n"
    by (simp add: source_index_def)
  also have "\<dots> = (p div (n * m) + 1) * (m * n)" by (simp add: algebra_simps)
  also have "\<dots> \<le> b * (m * n)" using i by (intro mult_le_mono1) simp
  finally show ?thesis by (simp add: mult.assoc)
qed

lemma source_index_inverse:
  assumes pos: "0 < m" "0 < n"
  shows "source_index m n (source_index n m p) = p"
proof -
  let ?i = "p div (m * n)" and ?a = "(p div n) mod m" and ?c = "p mod n"
  have p: "p = ?i * (m * n) + ?a * n + ?c" by (rule flat_index_decomp)
  have "source_index n m p = ?i * (n * m) + ?c * m + ?a"
    by (simp add: source_index_def)
  moreover have "source_index m n (?i * (n * m) + ?c * m + ?a) = ?i * (m * n) + ?a * n + ?c"
    using pos by (intro source_index_triple) simp_all
  ultimately show ?thesis using p by simp
qed

lemma permute_021_involution:
  assumes "wf_tensor t" "shape t = [b, m, n]"
  shows "\<exists>t'. permute_021 t = Inr t' \<and> shape t' = [b, n, m] \<and> wf_tensor t' \<and> permute_021 t' = Inr t"
proof -
  let ?t' = "\<lparr>shape = [b, n, m], elems = map (\<lambda>p. elems t ! source_index m n p) [0..<b * n * m]\<rparr>"
  have 1: "permute_021 t = Inr ?t'" using assms(2) by (rule permute_021_elems)
  have len: "length (elems t) = b * m * n" using assms by (simp add: wf_tensor_def)
  have "map (\<lambda>p. elems ?t' ! source_index n m p) [0..<b * m * n] = elems t"
  proof (rule nth_equalityI)
    show "length (map (\<lambda>p. elems ?t' ! source_index n m p) [0..<b * m * n]) = length (elems t)"
      by (simp add: len)
  next
    fix p assume "p < length (map (\<lambda>p. elems ?t' ! source_index n m p) [0..<b * m * n])"
    then have p: "p < b * m * n" by simp
    then have pos: "0 < m" "0 < n" by (cases m; cases n; simp)+
    have "source_index n m p < b * n * m" using p by (rule source_index_bound)
    then show "map (\<lambda>p. elems ?t' ! source_index n m p) [0..<b * m * n] ! p = elems t ! p"
      using p by (simp add: source_index_inverse[OF pos])
  qed
  then have "permute_021 ?t' = Inr t"
    using assms(2) by (simp add: permute_021_elems[of ?t' b n m])
  then show ?thesis using 1 by (simp add: wf_tensor_def)
qed

lemma infer_condition:
  fixes c a h :: nat
  shows "(0 < c * h \<and> (c * a) mod (c * h) = 0) \<longleftrightarrow> (0 < c \<and> 0 < h \<and> h dvd a)"
proof -
  have "(c * a) mod (c * h) = c * (a mod h)" by (rule mult_mod_right[symmetric])
  then show ?thesis by (auto simp: mod_eq_0_iff_dvd)
qed

lemma reshape_infer_last:
  assumes "shape t = [b, d, a]"
  shows "reshape_infer [b, d, h] [] t =
     (if 0 < b \<and> 0 < d \<and> 0 < h \<and> h dvd a
      then Inr \<lparr>shape = [b, d, h, a div h], elems = elems t\<rparr> else Inl RuntimeError)"
proof -
  have ns: "prod_list [b, d, h] * prod_list [] = (b * d) * h" by simp
  have nu: "prod_list (shape t) = (b * d) * a" by (simp add: assms)
  have dv: "0 < b \<and> 0 < d \<Longrightarrow> (b * d) * a div ((b * d) * h) = a div h" by simp
  have c: "(0 < (b * d) * h \<and> ((b * d) * a) mod ((b * d) * h) = 0) \<longleftrightarrow> (0 < b \<and> 0 < d \<and> 0 < h \<and> h dvd a)"
    unfolding infer_condition by simp
  show ?thesis
    unfolding reshape_infer_def Let_def ns nu c using dv by simp
qed

lemma reshape_infer_mid:
  assumes "shape t = [b, d, a]"
  shows "reshape_infer [b, d] [w] t =
     (if 0 < b \<and> 0 < d \<and> 0 < w \<and> w dvd a
      then Inr \<lparr>shape = [b, d, a div w, w], elems = elems t\<rparr> else Inl RuntimeError)"
proof -
  have ns: "prod_list [b, d] * prod_list [w] = (b * d) * w" by simp
  have nu: "prod_list (shape t) = (b * d) * a" by (simp add: assms)
  have dv: "0 < b \<and> 0 < d \<Longrightarrow> (b * d) * a div ((b * d) * w) = a div w" by simp
  have c: "(0 < (b * d) * w \<and> ((b * d) * a) mod ((b * d) * w) = 0) \<longleftrightarrow> (0 < b \<and> 0 < d \<and> 0 < w \<and> w dvd a)"
    unfolding infer_condition by simp
  show ?thesis
    unfolding reshape_infer_def Let_def ns nu c using dv by simp
qed

lemma reshape_infer_flat:
  assumes "shape t = [b, d, h, w]" "0 < b" "0 < d"
  shows "reshape_infer [b, d] [] t = Inr \<lparr>shape = [b, d, h * w], elems = elems t\<rparr>"
  using assms by (simp add: reshape_infer_def Let_def)

lemma to_spatial_wide:
  assumes "shape q = [bs, area, inner_dim]" "ge_one prims aspect_ratio"
    and "round_root_div prims area aspect_ratio = Inr height"
  shows "to_spatial prims aspect_ratio q =
     (if 0 < bs \<and> 0 < inner_dim \<and> 0 < height \<and> nat height dvd area
      then Inr \<lparr>shape = [bs, inner_dim, nat height, area div nat height],
                elems = map (\<lambda>p. elems q ! source_index area inner_dim p)
                          [0..<bs * inner_dim * area]\<rparr>
      else Inl RuntimeError)"
  using assms
  by (simp add: to_spatial_def permute_reshape_def permute_021_elems[OF assms(1)]
      reshape_infer_last)

lemma to_spatial_tall:
  assumes "shape q = [bs, area, inner_dim]" "\<not> ge_one prims aspect_ratio"
    and "round_root_mul prims area aspect_ratio = Inr width"
  shows "to_spatial prims aspect_ratio q =
     (if 0 < bs \<and> 0 < inner_dim \<and> 0 < width \<and> nat width dvd area
      then Inr \<lparr>shape = [bs, inner_dim, area div nat width, nat width],
                elems = map (\<lambda>p. elems q ! source_index area inner_dim p)
                          [0..<bs * inner_dim * area]\<rparr>
      else Inl RuntimeError)"
  using assms
  by (simp add: to_spatial_def permute_reshape_def permute_021_elems[OF assms(1)]
      reshape_infer_mid)

lemma to_spatial_result:
  assumes sh: "shape q = [bs, area, inner_dim]" and sp: "to_spatial prims aspect_ratio q = Inr q4"
  shows "\<exists>h w. 0 < bs \<and> 0 < inner_dim \<and> h * w = area \<and>
           q4 = \<lparr>shape = [bs, inner_dim, h, w],
                 elems = map (\<lambda>p. elems q ! source_index area inner_dim p)
                             [0..<bs * inner_dim * area]\<rparr>"
proof (cases "ge_one prims aspect_ratio")
  case True
  with sp sh obtain height where r: "round_root_div prims area aspect_ratio = Inr height"
    by (cases "round_root_div prims area aspect_ratio") (simp_all add: to_spatial_def)
  from sp show ?thesis
    unfolding to_spatial_wide[OF sh True r] by (auto split: if_splits)
next
  case False
  with sp sh obtain width where r: "round_root_mul prims area aspect_ratio = Inr width"
    by (cases "round_root_mul prims area aspect_ratio") (simp_all add: to_spatial_def)
  from sp show ?thesis
    unfolding to_spatial_tall[OF sh False r] by (auto split: if_splits)
qed

lemma from_spatial_to_spatial:
  assumes wf: "wf_tensor q" and sh: "shape q = [bs, area, inner_dim]"
    and sp: "to_spatial prims aspect_ratio q = Inr q4"
  shows "from_spatial bs inner_dim q4 = Inr q"
proof -
  from to_spatial_result[OF sh sp] obtain h w where
    pos: "0 < bs" "0 < inner_dim" and hw: "h * w = area"
    and q4: "q4 = \<lparr>shape = [bs, inner_dim, h, w],
                 elems = map (\<lambda>p. elems q ! source_index area inner_dim p)
                             [0..<bs * inner_dim * area]\<rparr>" by blast
  from permute_021_involution[OF wf sh] obtain t' where
    t': "permute_021 q = Inr t'" "permute_021 t' = Inr q" by blast
  have "t' = \<lparr>shape = [bs, inner_dim, area],
                 elems = map (\<lambda>p. elems q ! source_index area inner_dim p)
                             [0..<bs * inner_dim * area]\<rparr>"
    using t'(1) by (simp add: permute_021_elems[OF sh])
  moreover have "reshape_infer [bs, inner_dim] [] q4
                   = Inr \<lparr>shape = [bs, inner_dim, h * w], elems = elems q4\<rparr>"
    using pos by (intro reshape_infer_flat) (simp_all add: q4)
  ultimately have "reshape_infer [bs, inner_dim] [] q4 = Inr t'"
    by (simp add: q4 hw)
  then show ?thesis by (simp add: from_spatial_def t'(2))
qed

lemma capped_kernel_size_of_ceiling:
  "capped_kernel_size blur_sigma height width = kernel_size_of \<lceil>6 * blur_sigma\<rceil> height width"
  by (simp add: capped_kernel_size_def odd_kernel_size_def kernel_size_of_def Let_def)

lemma collect_map_Inr:
  "collect (map f xs) = Inr ys \<Longrightarrow>
     length ys = length xs \<and> (\<forall>i<length xs. f (xs ! i) = Inr (ys ! i))"
proof (induction xs arbitrary: ys)
  case Nil
  then show ?case by simp
next
  case (Cons x xs)
  from Cons.prems obtain y zs where y: "f x = Inr y" and zs: "collect (map f xs) = Inr zs"
    and ys: "ys = y # zs"
    by (auto split: sum.splits)
  from Cons.IH[OF zs] y ys show ?case
    by (auto simp: nth_Cons split: nat.splits)
qed

lemma concat_replicate_nth:
  "P < N \<Longrightarrow> r < k \<Longrightarrow> concat (map (\<lambda>P. replicate k (f P)) [0..<N]) ! (P * k + r) = f P"
proof (induction N)
  case 0
  then show ?case by simp
next
  case (Suc N)
  have len: "length (concat (map (\<lambda>P. replicate k (f P)) [0..<N])) = N * k"
    by (induction N) simp_all
  show ?case
  proof (cases "P < N")
    case True
    have "P * k + r < Suc P * k" using Suc.prems(2) by simp
    also have "\<dots> \<le> N * k" using True by (intro mult_le_mono1) simp
    finally have "P * k + r < N * k" .
    with Suc.IH[OF True Suc.prems(2)] show ?thesis
      by (simp add: nth_append len)
  next
    case False
    with Suc.prems have "P = N" by simp
    then show ?thesis using Suc.prems(2) by (simp add: nth_append len)
  qed
qed

lemma flat_index_less:
  fixes b i a c m n :: nat
  assumes "i < b" "a < m" "c < n"
  shows "i * (m * n) + a * n + c < b * m * n"
proof -
  have "a * n + c < Suc a * n" using assms(3) by simp
  also have "\<dots> \<le> m * n" using assms(2) by (intro mult_le_mono1) simp
  finally have "i * (m * n) + a * n + c < Suc i * (m * n)" by simp
  also have "\<dots> \<le> b * (m * n)" using assms(1) by (intro mult_le_mono1) simp
  finally show ?thesis by (simp add: mult.assoc)
qed

lemma concat_replicate_means:
  assumes "P < length means" "r < k"
  shows "concat (map (replicate k) means) ! (P * k + r) = means ! P"
proof -
  have "map (replicate k) means = map (\<lambda>P. replicate k (means ! P)) [0..<length means]"
    by (rule nth_equalityI) simp_all
  then show ?thesis
    using concat_replicate_nth[OF assms, of "\<lambda>P. means ! P"] by simp
qed

lemma example_ratio:
  "true_div example_prims 2 2 = Inr 1" "true_div example_prims 9 4 = Inr (9 / 4)"
  by (simp_all add: example_prims_def)

lemma upt8: "[0..<8::nat] = [0, 1, 2, 3, 4, 5, 6, 7]"
  by code_simp

lemma upt4: "[0..<4::nat] = [0, 1, 2, 3]"
  by code_simp

lemma example_to_spatial: "to_spatial example_prims 1 example_q = Inr example_q4"
  by (simp add: to_spatial_def permute_reshape_def example_prims_def example_q_def example_q4_def
      permute_021_def source_index_def reshape_infer_def upt8)

lemma example_plane_mean:
  "plane_mean example_prims [1, 3, 5, 7] = Inr 4" "plane_mean example_prims [2, 4, 6, 8] = Inr 5"
proof -
  have "length [1, 3, 5, 7 :: real] = 4" "length [2, 4, 6, 8 :: real] = 4" by simp_all
  then show "plane_mean example_prims [1, 3, 5, 7] = Inr 4"
    "plane_mean example_prims [2, 4, 6, 8] = Inr 5"
    by (simp_all add: example_prims_def Let_def del: list.size length_Cons)
qed

lemma example_mean_collapse: "mean_collapse example_prims example_q4 = Inr example_q4_mean"
proof -
  have u: "[0..<2::nat] = [0, 1]" by code_simp
  have r: "replicate 4 (4 :: real) = [4, 4, 4, 4]" "replicate 4 (5 :: real) = [5, 5, 5, 5]"
    by code_simp+
  show ?thesis
    by (simp add: mean_collapse_def example_q4_def example_q4_mean_def u example_plane_mean r)
qed

text \<open>
  Claim C2. Let \<open>q\<close> be a well-formed query of shape \<open>[bs, area, inner_dim]\<close> whose
  reshape to the spatial form succeeds, let \<open>blur_sigma >= 0\<close> hold and let \<open>c\<close> be the
  integer \<open>math.ceil(6 * blur_sigma)\<close> returns. If the smallest odd integer that is at
  least \<open>c\<close>, capped at \<open>2 * min height width - 1\<close>, is below 3, the blur is not called
  and the wrapper calls the wrapped attention function with exactly \<open>q\<close>: reshaping to
  \<open>[bs, inner_dim, height, width]\<close> and back is the identity. This holds for every
  attention function and whatever the floating-point operations compute.
\<close>

theorem small_kernel_passes_q_unchanged:
  assumes wf: "wf_tensor q" and sh: "shape q = [bs, area, inner_dim]"
    and heads: "n_heads extra_options = Some heads"
    and orig: "original_shape extra_options = Some orig"
              "drop 2 (take 4 orig) = [height_orig, width_orig]" "0 < height_orig"
    and ratio: "true_div prims width_orig height_orig = Inr aspect_ratio"
    and sp: "to_spatial prims aspect_ratio q = Inr q4"
            "shape q4 = [bs4, dim4, height, width]"
    and sigma: "ge_zero prims blur_sigma"
    and ceil: "ceil_six prims blur_sigma = Inr c"
    and small: "kernel_size_of c height width < 3"
  shows "seg_perturbed_attention attention prims blur_sigma border_mode blur q k v
           extra_options mask_arg = Inr (attention q k v heads)"
proof -
  have p: "perturb prims blur blur_sigma border_mode q4 = Inr q4"
    using sigma small by (simp add: perturb_def ceil sp(2) Let_def)
  have f: "from_spatial bs inner_dim q4 = Inr q"
    using wf sh sp(1) by (rule from_spatial_to_spatial)
  show ?thesis
    using orig(3)
    by (simp add: seg_perturbed_attention_def seg_perturbed_q_def heads sh orig(1,2) ratio
        sp(1) p f)
qed

theorem small_kernel_passes_q_unchanged_witness:
  "wf_tensor example_q \<and> shape example_q = [1, 4, 2]
   \<and> n_heads example_options = Some 8
   \<and> original_shape example_options = Some [1, 4, 2, 2]
   \<and> drop 2 (take 4 [1, 4, 2, 2 :: nat]) = [2, 2] \<and> 0 < (2 :: nat)
   \<and> true_div example_prims 2 2 = Inr 1
   \<and> to_spatial example_prims 1 example_q = Inr example_q4
   \<and> shape example_q4 = [1, 2, 2, 2]
   \<and> ge_zero example_prims 0 \<and> ceil_six example_prims 0 = Inr 0
   \<and> kernel_size_of 0 2 2 < 3
   \<and> seg_perturbed_attention return_q example_prims 0 ''reflect'' failing_blur example_q () ()
         example_options (None :: unit option) = Inr example_q"
proof -
  have 1: "wf_tensor example_q" by (simp add: wf_tensor_def example_q_def)
  have 2: "shape example_q = [1, 4, 2]" by (simp add: example_q_def)
  have 3: "n_heads example_options = Some 8" by (simp add: example_options_def)
  have 4: "original_shape example_options = Some [1, 4, 2, 2]" by (simp add: example_options_def)
  have 5: "drop 2 (take 4 [1, 4, 2, 2 :: nat]) = [2, 2]" by simp
  have 6: "0 < (2 :: nat)" by simp
  have 7: "shape example_q4 = [1, 2, 2, 2]" by (simp add: example_q4_def)
  have 8: "ge_zero example_prims 0" by (simp add: example_prims_def)
  have 9: "ceil_six example_prims 0 = Inr 0" by (simp add: example_prims_def)
  have 10: "kernel_size_of 0 2 2 < 3" by (simp add: kernel_size_of_def)
  from small_kernel_passes_q_unchanged [OF 1 2 3 4 5 6 example_ratio(1) example_to_spatial 7 8 9 10,
      of return_q "''reflect''" failing_blur "()" "()" "None :: unit option"]
    1 2 3 4 5 6 example_ratio(1) example_to_spatial 7 8 9 10
  show ?thesis by (simp add: return_q_def)
qed

text \<open>
  Claim C3. Let \<open>q\<close> be a well-formed query of shape \<open>[bs, area, inner_dim]\<close> whose
  reshape to the spatial form succeeds, let \<open>blur_sigma >= 0\<close> be false and let the mean
  of the spatial tensor be computed without an exception. The query \<open>q'\<close> the wrapper
  passes to the wrapped attention function has the shape of \<open>q\<close>, and for every batch
  index \<open>b\<close> and channel \<open>c\<close> its element at every spatial position \<open>p\<close> is the mean,
  as the tensor library computes it, of the elements of \<open>q\<close> over all spatial positions
  for \<open>b\<close> and \<open>c\<close>.
\<close>

theorem negative_sigma_mean_field:
  assumes wf: "wf_tensor q" and sh: "shape q = [bs, area, inner_dim]"
    and heads: "n_heads extra_options = Some heads"
    and orig: "original_shape extra_options = Some orig"
              "drop 2 (take 4 orig) = [height_orig, width_orig]" "0 < height_orig"
    and ratio: "true_div prims width_orig height_orig = Inr aspect_ratio"
    and sp: "to_spatial prims aspect_ratio q = Inr q4"
    and sigma: "\<not> ge_zero prims blur_sigma"
    and mean: "mean_collapse prims q4 = Inr q4m"
  shows "\<exists>q'. seg_perturbed_q prims blur_sigma border_mode blur q extra_options = Inr (q', heads)
           \<and> seg_perturbed_attention attention prims blur_sigma border_mode blur q k v
                 extra_options mask_arg = Inr (attention q' k v heads)
           \<and> shape q' = [bs, area, inner_dim]
           \<and> (\<forall>b<bs. \<forall>p<area. \<forall>c<inner_dim.
                 plane_mean prims (map (\<lambda>p'. elem3 q b p' c) [0..<area]) = Inr (elem3 q' b p c))"
proof -
  define pe where
    "pe = map (\<lambda>p. elems q ! source_index area inner_dim p) [0..<bs * inner_dim * area]"
  from to_spatial_result[OF sh sp] obtain h w where
    pos: "0 < bs" "0 < inner_dim" and hw: "h * w = area"
    and q4: "q4 = \<lparr>shape = [bs, inner_dim, h, w], elems = pe\<rparr>"
    unfolding pe_def by blast
  from mean obtain means where
    col: "collect (map (\<lambda>P. plane_mean prims (take area (drop (P * area) pe)))
                      [0..<bs * inner_dim]) = Inr means"
    and q4m: "q4m = \<lparr>shape = [bs, inner_dim, h, w], elems = concat (map (replicate area) means)\<rparr>"
    by (auto simp: mean_collapse_def q4 hw split: sum.splits)
  define ce where "ce = concat (map (replicate area) means)"
  define q' where
    "q' = \<lparr>shape = [bs, area, inner_dim],
           elems = map (\<lambda>p. ce ! source_index inner_dim area p) [0..<bs * area * inner_dim]\<rparr>"
  from collect_map_Inr[OF col] have
    len_means: "length means = bs * inner_dim"
    and means: "\<And>P. P < bs * inner_dim \<Longrightarrow>
                  plane_mean prims (take area (drop (P * area) pe)) = Inr (means ! P)"
    by simp_all
  have pt: "perturb prims blur blur_sigma border_mode q4 = Inr q4m"
    using sigma by (simp add: perturb_def mean)
  have rs: "reshape_infer [bs, inner_dim] [] q4m = Inr \<lparr>shape = [bs, inner_dim, area], elems = ce\<rparr>"
    using pos by (simp add: reshape_infer_flat[of _ bs inner_dim h w] q4m hw ce_def)
  have fs: "from_spatial bs inner_dim q4m = Inr q'"
    by (simp add: from_spatial_def rs permute_021_elems[of _ bs inner_dim area] q'_def)
  have run: "seg_perturbed_q prims blur_sigma border_mode blur q extra_options = Inr (q', heads)"
    using orig(3) by (simp add: seg_perturbed_q_def heads sh orig(1,2) ratio sp pt fs)
  have len_pe: "length pe = bs * inner_dim * area" by (simp add: pe_def)
  have el: "plane_mean prims (map (\<lambda>p'. elem3 q b p' c) [0..<area]) = Inr (elem3 q' b p c)"
    if b: "b < bs" and p: "p < area" and c: "c < inner_dim" for b p c
  proof -
    have i1: "b * (area * inner_dim) + p * inner_dim + c < bs * area * inner_dim"
      using b p c by (rule flat_index_less)
    have s1: "source_index inner_dim area (b * (area * inner_dim) + p * inner_dim + c)
                = b * (inner_dim * area) + c * area + p"
      using c p by (rule source_index_triple)
    have P: "b * inner_dim + c < bs * inner_dim"
      using flat_index_less[of b bs 0 1 c inner_dim] b c by simp
    have e1: "elem3 q' b p c = ce ! (b * (inner_dim * area) + c * area + p)"
      using i1 by (simp add: elem3_def q'_def s1)
    have e2: "b * (inner_dim * area) + c * area + p = (b * inner_dim + c) * area + p"
      by (simp add: algebra_simps)
    have e3: "ce ! ((b * inner_dim + c) * area + p) = means ! (b * inner_dim + c)"
      unfolding ce_def using P p by (intro concat_replicate_means) (simp_all add: len_means)
    have fits: "(b * inner_dim + c) * area + area \<le> length pe"
    proof -
      have "Suc (b * inner_dim + c) * area \<le> (bs * inner_dim) * area"
        using P by (intro mult_le_mono1) simp
      then show ?thesis by (simp add: len_pe)
    qed
    have plane: "take area (drop ((b * inner_dim + c) * area) pe)
                   = map (\<lambda>p'. elem3 q b p' c) [0..<area]"
    proof (rule nth_equalityI)
      show "length (take area (drop ((b * inner_dim + c) * area) pe))
              = length (map (\<lambda>p'. elem3 q b p' c) [0..<area])"
        using fits by simp
    next
      fix p' assume "p' < length (take area (drop ((b * inner_dim + c) * area) pe))"
      then have p': "p' < area" by simp
      have i2: "b * (inner_dim * area) + c * area + p' < bs * inner_dim * area"
        using b c p' by (rule flat_index_less)
      have s2: "source_index area inner_dim (b * (inner_dim * area) + c * area + p')
                  = b * (area * inner_dim) + p' * inner_dim + c"
        using p' c by (rule source_index_triple)
      have "pe ! ((b * inner_dim + c) * area + p') = pe ! (b * (inner_dim * area) + c * area + p')"
        by (simp add: algebra_simps)
      also have "\<dots> = elems q ! (b * (area * inner_dim) + p' * inner_dim + c)"
        using i2 by (simp add: pe_def s2)
      finally have "pe ! ((b * inner_dim + c) * area + p') = elem3 q b p' c"
        by (simp add: elem3_def sh)
      then show "take area (drop ((b * inner_dim + c) * area) pe) ! p'
                   = map (\<lambda>p'. elem3 q b p' c) [0..<area] ! p'"
        using p' fits by simp
    qed
    from means[OF P] show ?thesis
      by (simp only: plane e1 e2 e3)
  qed
  show ?thesis
    using run el by (intro exI[of _ q']) (simp add: seg_perturbed_attention_def q'_def)
qed

theorem negative_sigma_mean_field_witness:
  "wf_tensor example_q \<and> shape example_q = [1, 4, 2]
   \<and> n_heads example_options = Some 8
   \<and> original_shape example_options = Some [1, 4, 2, 2]
   \<and> drop 2 (take 4 [1, 4, 2, 2 :: nat]) = [2, 2] \<and> 0 < (2 :: nat)
   \<and> true_div example_prims 2 2 = Inr 1
   \<and> to_spatial example_prims 1 example_q = Inr example_q4
   \<and> \<not> ge_zero example_prims (- 1)
   \<and> mean_collapse example_prims example_q4 = Inr example_q4_mean
   \<and> plane_mean example_prims [1, 3, 5, 7] = Inr 4
   \<and> plane_mean example_prims [2, 4, 6, 8] = Inr 5
   \<and> (\<exists>q'. seg_perturbed_q example_prims (- 1) ''reflect'' failing_blur example_q example_options
               = Inr (q', 8)
         \<and> shape q' = [1, 4, 2]
         \<and> elem3 q' 0 0 0 = 4 \<and> elem3 q' 0 3 0 = 4 \<and> elem3 q' 0 2 1 = 5)"
proof -
  have 1: "wf_tensor example_q" by (simp add: wf_tensor_def example_q_def)
  have 2: "shape example_q = [1, 4, 2]" by (simp add: example_q_def)
  have 3: "n_heads example_options = Some 8" by (simp add: example_options_def)
  have 4: "original_shape example_options = Some [1, 4, 2, 2]" by (simp add: example_options_def)
  have 5: "drop 2 (take 4 [1, 4, 2, 2 :: nat]) = [2, 2]" by simp
  have 6: "0 < (2 :: nat)" by simp
  have 7: "\<not> ge_zero example_prims (- 1)" by (simp add: example_prims_def)
  note m0 = example_plane_mean(1) and m1 = example_plane_mean(2)
  have p0: "map (\<lambda>p'. elem3 example_q 0 p' 0) [0..<4] = [1, 3, 5, 7]"
    by (simp add: upt4 elem3_def example_q_def)
  have p1: "map (\<lambda>p'. elem3 example_q 0 p' 1) [0..<4] = [2, 4, 6, 8]"
    by (simp add: upt4 elem3_def example_q_def)
  from negative_sigma_mean_field [OF 1 2 3 4 5 6 example_ratio(1) example_to_spatial 7
      example_mean_collapse,
      of "''reflect''" failing_blur return_q "()" "()" "None :: unit option"]
  obtain q' where
    r: "seg_perturbed_q example_prims (- 1) ''reflect'' failing_blur example_q example_options
          = Inr (q', 8)"
    and sh: "shape q' = [1, 4, 2]"
    and el: "\<forall>b<1. \<forall>p<4. \<forall>c<2.
               plane_mean example_prims (map (\<lambda>p'. elem3 example_q b p' c) [0..<4])
                 = Inr (elem3 q' b p c)"
    by blast
  have "plane_mean example_prims (map (\<lambda>p'. elem3 example_q 0 p' 0) [0..<4]) = Inr (elem3 q' 0 0 0)"
    using el by (elim allE[of _ 0] impE) simp_all
  then have e0: "elem3 q' 0 0 0 = 4"
    unfolding p0 m0 by simp
  have "plane_mean example_prims (map (\<lambda>p'. elem3 example_q 0 p' 0) [0..<4]) = Inr (elem3 q' 0 3 0)"
    using el by (elim allE[of _ 0] allE[of _ 3] impE) simp_all
  then have e1: "elem3 q' 0 3 0 = 4"
    unfolding p0 m0 by simp
  have "plane_mean example_prims (map (\<lambda>p'. elem3 example_q 0 p' 1) [0..<4]) = Inr (elem3 q' 0 2 1)"
    using el by (elim allE[of _ 0] allE[of _ 2] allE[of _ 1] impE) simp_all
  then have e2: "elem3 q' 0 2 1 = 5"
    unfolding p1 m1 by simp
  from e0 e1 e2 have "elem3 q' 0 0 0 = 4 \<and> elem3 q' 0 3 0 = 4 \<and> elem3 q' 0 2 1 = 5"
    by (intro conjI)
  with r sh 1 2 3 4 5 6 example_ratio(1) example_to_spatial 7 example_mean_collapse m0 m1
  show ?thesis by blast
qed




end
